theory Spec2Isabelle
  imports Complex_Main "HOL-Library.FSet" "HOL-Library.Stream"
begin

section \<open>Python values and strings\<close>

text \<open>
  The in-process store keeps values of type \<open>Any\<close>. The handlers only ever store
  Python \<open>int\<close>s (the results of \<open>incr\<close>, the counters written back with \<open>set\<close>) and
  Python \<open>str\<close>s (tokens, user ids read back from a hash). The two are different
  values in Python (\<open>1 != "1"\<close>), so the model keeps them apart.

  A \<open>str\<close> of the store layer is a list of 8-bit characters (the code points below 256).
\<close>

datatype pyval = PInt int | PStr string

subsection \<open>\<open>str()\<close> of an integer\<close>

definition digit_char :: "nat \<Rightarrow> char" where
  "digit_char d = ''0123456789'' ! d"

fun show_nat :: "nat \<Rightarrow> string" where
  "show_nat n = (if n < 10 then [digit_char n] else show_nat (n div 10) @ [digit_char (n mod 10)])"

declare show_nat.simps [simp del]

definition show_int :: "int \<Rightarrow> string" where
  "show_int i = (if i < 0 then CHR ''-'' # show_nat (nat (- i)) else show_nat (nat i))"

text \<open>\<open>str(v)\<close>, also what an f-string does with \<open>{v}\<close>.\<close>

fun py_str :: "pyval \<Rightarrow> string" where
  "py_str (PInt n) = show_int n"
| "py_str (PStr s) = s"

subsection \<open>\<open>str.strip()\<close> and \<open>int()\<close> of a string\<close>

text \<open>
  The characters Python's \<open>str.isspace\<close> accepts, among the code points below 256:
  TAB to CR, FS to US, space, NEL and NBSP.
\<close>

definition is_space :: "char \<Rightarrow> bool" where
  "is_space c = (let n = (of_char c :: nat) in
     (9 \<le> n \<and> n \<le> 13) \<or> (28 \<le> n \<and> n \<le> 32) \<or> n = 133 \<or> n = 160)"

definition py_strip :: "string \<Rightarrow> string" where
  "py_strip s = rev (dropWhile is_space (rev (dropWhile is_space s)))"

text \<open>
  \<open>int()\<close> skips less than \<open>strip()\<close> does: of the code points below 128 only TAB to CR
  and the space (the separators FS to US stay and make it raise); above, NEL and NBSP
  are turned into spaces first.
\<close>

definition is_int_space :: "char \<Rightarrow> bool" where
  "is_int_space c = (let n = (of_char c :: nat) in
     (9 \<le> n \<and> n \<le> 13) \<or> n = 32 \<or> n = 133 \<or> n = 160)"

definition int_strip :: "string \<Rightarrow> string" where
  "int_strip s = rev (dropWhile is_int_space (rev (dropWhile is_int_space s)))"

definition is_digit :: "char \<Rightarrow> bool" where
  "is_digit c = (let n = (of_char c :: nat) in 48 \<le> n \<and> n \<le> 57)"

text \<open>
  The digit groups of a decimal literal: digits, with single underscores allowed between
  two digits (\<open>int("1_000") == 1000\<close>, while \<open>"_1"\<close>, \<open>"1_"\<close> and \<open>"1__0"\<close> raise).
\<close>

fun digits_ok :: "string \<Rightarrow> bool" where
  "digits_ok [] = False"
| "digits_ok [c] = is_digit c"
| "digits_ok (c # d # cs) =
     (is_digit c \<and> (if d = CHR ''_'' then digits_ok cs else digits_ok (d # cs)))"

definition digits_val :: "string \<Rightarrow> nat" where
  "digits_val s = foldl (\<lambda>acc c. 10 * acc + (of_char c - 48)) 0 (filter is_digit s)"

text \<open>\<open>int(s)\<close> for a string; \<open>None\<close> is the \<open>ValueError\<close>.\<close>

definition py_int_str :: "string \<Rightarrow> int option" where
  "py_int_str s =
     (case int_strip s of
        [] \<Rightarrow> None
      | c # r \<Rightarrow>
          if c = CHR ''-'' then (if digits_ok r then Some (- int (digits_val r)) else None)
          else if c = CHR ''+'' then (if digits_ok r then Some (int (digits_val r)) else None)
          else (if digits_ok (c # r) then Some (int (digits_val (c # r))) else None))"

text \<open>\<open>int(v)\<close> for a stored value.\<close>

fun py_int :: "pyval \<Rightarrow> int option" where
  "py_int (PInt n) = Some n"
| "py_int (PStr s) = py_int_str s"

text \<open>Truth value of an \<open>Optional[str]\<close>: \<open>None\<close> and \<open>""\<close> are falsy.\<close>

fun truthy :: "string option \<Rightarrow> bool" where
  "truthy None = False"
| "truthy (Some s) = (s \<noteq> [])"

text \<open>\<open>int(x or 0)\<close> and \<open>int(x) if x else 0\<close> for \<open>x\<close> an \<open>Optional[str]\<close>.\<close>

fun int_or_zero :: "string option \<Rightarrow> int option" where
  "int_or_zero None = Some 0"
| "int_or_zero (Some s) = (if s = [] then Some 0 else py_int_str s)"

subsection \<open>Dictionaries of a hash\<close>

text \<open>
  A hash record is a Python \<open>dict\<close> from field names to strings (every \<open>hset\<close> of the
  handlers writes \<open>str\<close> values). It is an association list in insertion order with
  distinct keys; assigning to a key that is present keeps its position.
\<close>

type_synonym pydict = "(string \<times> string) list"

fun dict_set :: "string \<Rightarrow> string \<Rightarrow> pydict \<Rightarrow> pydict" where
  "dict_set k v [] = [(k, v)]"
| "dict_set k v ((k', v') # h) = (if k' = k then (k, v) # h else (k', v') # dict_set k v h)"

text \<open>\<open>h.update(mapping)\<close>\<close>

definition dict_update :: "pydict \<Rightarrow> pydict \<Rightarrow> pydict" where
  "dict_update h mapping = fold (\<lambda>(k, v). dict_set k v) mapping h"

text \<open>\<open>d.get(k)\<close> is \<open>map_of d k\<close>; \<open>d.get(k, default)\<close>:\<close>

definition dict_get :: "pydict \<Rightarrow> string \<Rightarrow> string \<Rightarrow> string" where
  "dict_get d k dflt = (case map_of d k of None \<Rightarrow> dflt | Some v \<Rightarrow> v)"

section \<open>The in-process store (\<open>core/memory_redis.py\<close>)\<close>

text \<open>
  \<open>AsyncMemoryRedis\<close> has the four dictionaries \<open>_kv\<close>, \<open>_hash\<close>, \<open>_sets\<close> and \<open>_ttl\<close>.
  Every method runs under the one lock, so a method is one atomic step on the state.
  \<open>time.time()\<close> is an input: each call reads the next value of the stream \<open>clock\<close>.
  The handlers' \<open>_now_iso()\<close> reads the next value of \<open>iso_clock\<close> in the same way.
\<close>

record world =
  kv :: "string \<rightharpoonup> pyval"
  hash :: "string \<rightharpoonup> pydict"
  sets :: "string \<rightharpoonup> pyval fset"
  ttl :: "string \<rightharpoonup> real"
  clock :: "real stream"
  iso_clock :: "string stream"

definition expired :: "world \<Rightarrow> real \<Rightarrow> string \<Rightarrow> bool" where
  "expired w now k = (case ttl w k of None \<Rightarrow> False | Some t \<Rightarrow> t \<le> now)"

definition cleanup :: "world \<Rightarrow> world" where
  "cleanup w =
     (let now = shd (clock w) in
      w\<lparr>kv := (\<lambda>k. if expired w now k then None else kv w k),
        ttl := (\<lambda>k. if expired w now k then None else ttl w k),
        clock := stl (clock w)\<rparr>)"

definition get :: "string \<Rightarrow> world \<Rightarrow> string option \<times> world" where
  "get key w = (let w1 = cleanup w in (map_option py_str (kv w1 key), w1))"

text \<open>\<open>set(key, value, nx)\<close>; \<open>nx=None\<close> is \<open>False\<close>.\<close>

definition set_kv :: "string \<Rightarrow> pyval \<Rightarrow> bool \<Rightarrow> world \<Rightarrow> bool \<times> world" where
  "set_kv key val nx w =
     (let w1 = cleanup w in
      if nx \<and> kv w1 key \<noteq> None then (False, w1)
      else (True, w1\<lparr>kv := (kv w1)(key \<mapsto> val), ttl := (ttl w1)(key := None)\<rparr>))"

text \<open>\<open>setex\<close> reads the clock twice: once in \<open>_cleanup\<close>, once for the deadline.\<close>

definition setex :: "string \<Rightarrow> int \<Rightarrow> pyval \<Rightarrow> world \<Rightarrow> bool \<times> world" where
  "setex key ttl_seconds val w =
     (let w1 = cleanup w; now = shd (clock w1) in
      (True, w1\<lparr>kv := (kv w1)(key \<mapsto> val),
                ttl := (ttl w1)(key \<mapsto> now + real_of_int ttl_seconds),
                clock := stl (clock w1)\<rparr>))"

text \<open>\<open>incr\<close>; \<open>None\<close> is the \<open>ValueError\<close> of \<open>int()\<close> on a value that is no number.\<close>

definition incr :: "string \<Rightarrow> world \<Rightarrow> int option \<times> world" where
  "incr key w =
     (let w1 = cleanup w in
      case py_int (case kv w1 key of None \<Rightarrow> PInt 0 | Some v \<Rightarrow> v) of
        None \<Rightarrow> (None, w1)
      | Some n \<Rightarrow> (Some (n + 1), w1\<lparr>kv := (kv w1)(key \<mapsto> PInt (n + 1))\<rparr>))"

definition hset :: "string \<Rightarrow> pydict \<Rightarrow> world \<Rightarrow> int \<times> world" where
  "hset key mapping w =
     (let w1 = cleanup w;
          h = (case hash w1 key of None \<Rightarrow> [] | Some h \<Rightarrow> h)
      in (int (length mapping), w1\<lparr>hash := (hash w1)(key \<mapsto> dict_update h mapping)\<rparr>))"

definition hgetall :: "string \<Rightarrow> world \<Rightarrow> pydict \<times> world" where
  "hgetall key w =
     (let w1 = cleanup w in ((case hash w1 key of None \<Rightarrow> [] | Some h \<Rightarrow> h), w1))"

definition sadd :: "string \<Rightarrow> pyval list \<Rightarrow> world \<Rightarrow> int \<times> world" where
  "sadd key members w =
     (let w1 = cleanup w;
          s = (case sets w1 key of None \<Rightarrow> {||} | Some s \<Rightarrow> s);
          s' = fold finsert members s
      in (int (fcard s') - int (fcard s), w1\<lparr>sets := (sets w1)(key \<mapsto> s')\<rparr>))"

definition srem :: "string \<Rightarrow> pyval list \<Rightarrow> world \<Rightarrow> int \<times> world" where
  "srem key members w =
     (let w1 = cleanup w;
          s = (case sets w1 key of None \<Rightarrow> {||} | Some s \<Rightarrow> s);
          s' = fold (\<lambda>m s. s |-| {|m|}) members s
      in (int (fcard s) - int (fcard s'), w1\<lparr>sets := (sets w1)(key \<mapsto> s')\<rparr>))"

definition smembers :: "string \<Rightarrow> world \<Rightarrow> pyval fset \<times> world" where
  "smembers key w =
     (let w1 = cleanup w in ((case sets w1 key of None \<Rightarrow> {||} | Some s \<Rightarrow> s), w1))"

definition sismember :: "string \<Rightarrow> pyval \<Rightarrow> world \<Rightarrow> bool \<times> world" where
  "sismember key member w =
     (let w1 = cleanup w in (member |\<in>| (case sets w1 key of None \<Rightarrow> {||} | Some s \<Rightarrow> s), w1))"

definition scard :: "string \<Rightarrow> world \<Rightarrow> int \<times> world" where
  "scard key w =
     (let w1 = cleanup w in (int (fcard (case sets w1 key of None \<Rightarrow> {||} | Some s \<Rightarrow> s)), w1))"

text \<open>\<open>delete\<close> looks at \<open>_kv\<close> and \<open>_ttl\<close> only.\<close>

definition delete :: "string \<Rightarrow> world \<Rightarrow> int \<times> world" where
  "delete key w =
     (let w1 = cleanup w in
      ((if kv w1 key \<noteq> None then 1 else 0),
       w1\<lparr>kv := (kv w1)(key := None), ttl := (ttl w1)(key := None)\<rparr>))"

section \<open>Errors and the runtime handle\<close>

text \<open>
  \<open>HTTPException(status_code, detail)\<close> is what the handlers raise. \<open>ValueError\<close> (from
  \<open>int()\<close>) and \<open>KeyError\<close> (from \<open>user["id"]\<close>) are never caught by a handler and leave
  it as they are.
\<close>

datatype error = HTTPException nat string | ValueError | KeyError

text \<open>
  \<open>runtime.redis_client\<close> is \<open>None\<close> until the store has been constructed. Every handler
  starts with the same guard, which \<open>with_redis\<close> is.
\<close>

definition with_redis ::
  "world option \<Rightarrow> (world \<Rightarrow> (error + 'a) \<times> world) \<Rightarrow> (error + 'a) \<times> world option" where
  "with_redis redis_client body =
     (case redis_client of
        None \<Rightarrow> (Inl (HTTPException 500 ''Redis not initialized''), None)
      | Some w \<Rightarrow> (case body w of (r, w') \<Rightarrow> (r, Some w')))"

definition now_iso :: "world \<Rightarrow> string \<times> world" where
  "now_iso w = (shd (iso_clock w), w\<lparr>iso_clock := stl (iso_clock w)\<rparr>)"

section \<open>Identity and sessions (\<open>endpoints/auth.py\<close>)\<close>


record LoginRequest =
  login_username :: string
  login_password :: string

record UserPublic =
  user_id :: string
  user_name :: string

text \<open>
  \<open>_get_user_by_username\<close>. Its own guard on \<open>runtime.redis_client\<close> has already been
  passed by the caller.
\<close>

definition get_user_by_username :: "string \<Rightarrow> world \<Rightarrow> pydict option \<times> world" where
  "get_user_by_username username w =
     (case get (''user:byname:'' @ username) w of
        (uid, w1) \<Rightarrow>
          if \<not> truthy uid then (None, w1)
          else (case hgetall (''user:'' @ the uid) w1 of
                  (data, w2) \<Rightarrow> ((if data = [] then None else Some data), w2)))"


text \<open>
  \<open>login\<close>. \<open>bcrypt.verify\<close>, the token \<open>generate_token()\<close> returns and the value of
  \<open>get_session_ttl_seconds()\<close> are parameters. \<open>bcrypt.verify\<close> answers \<open>None\<close> where passlib
  raises (a hash it cannot identify, a password with a NUL character); the handler has no
  \<open>try\<close> around the call, so the \<open>ValueError\<close> leaves it.
\<close>

definition login ::
  "(string \<Rightarrow> string \<Rightarrow> bool option) \<Rightarrow> string \<Rightarrow> int \<Rightarrow> LoginRequest \<Rightarrow> world option
     \<Rightarrow> (error + string) \<times> world option" where
  "login bcrypt_verify token session_ttl payload redis_client = with_redis redis_client (\<lambda>w.
     let username = py_strip (login_username payload) in
     (case get_user_by_username username w of
        (None, w1) \<Rightarrow> (Inl (HTTPException 401 ''Invalid credentials''), w1)
      | (Some user, w1) \<Rightarrow>
          (case bcrypt_verify (login_password payload) (dict_get user ''password_hash'' []) of
             None \<Rightarrow> (Inl ValueError, w1)
           | Some False \<Rightarrow> (Inl (HTTPException 401 ''Invalid credentials''), w1)
           | Some True \<Rightarrow>
               (case map_of user ''id'' of
                  None \<Rightarrow> (Inl KeyError, w1)
                | Some uid \<Rightarrow>
                    (case setex (''session:'' @ token) session_ttl (PStr uid) w1 of
                       (_, w2) \<Rightarrow>
                         (case sadd (''user:sessions:'' @ uid) [PStr token] w2 of
                            (_, w3) \<Rightarrow> (Inr token, w3)))))))"

text \<open>\<open>_resolve_user_from_token\<close>\<close>

definition resolve_user_from_token :: "string \<Rightarrow> world option \<Rightarrow> (error + pydict) \<times> world option" where
  "resolve_user_from_token token redis_client = with_redis redis_client (\<lambda>w.
     (case get (''session:'' @ token) w of
        (uid, w1) \<Rightarrow>
          if \<not> truthy uid then (Inl (HTTPException 401 ''Unauthorized''), w1)
          else
            (case hgetall (''user:'' @ the uid) w1 of
               (user, w2) \<Rightarrow>
                 if user = [] then (Inl (HTTPException 401 ''Unauthorized''), w2)
                 else (Inr user, w2))))"

text \<open>\<open>logout\<close>; the response \<open>{"ok": True}\<close> is the value \<open>True\<close>.\<close>

definition logout :: "string \<Rightarrow> world option \<Rightarrow> (error + bool) \<times> world option" where
  "logout token redis_client = with_redis redis_client (\<lambda>w.
     (case get (''session:'' @ token) w of
        (uid, w1) \<Rightarrow>
          if truthy uid then
            (case delete (''session:'' @ token) w1 of
               (_, w2) \<Rightarrow>
                 (case srem (''user:sessions:'' @ the uid) [PStr token] w2 of
                    (_, w3) \<Rightarrow> (Inr True, w3)))
          else (Inr True, w1)))"

section \<open>Sequences of store operations\<close>

text \<open>
  The methods of the store as a datatype, to speak about whatever the handlers do to the
  store between two given calls. \<open>writes key op\<close> holds for the methods that assign to
  or remove \<open>_kv[key]\<close>.
\<close>

datatype op =
    Get string | Set string pyval bool | Setex string int pyval | Incr string
  | Hset string pydict | Hgetall string
  | Sadd string "pyval list" | Srem string "pyval list" | Smembers string
  | Sismember string pyval | Scard string | Delete string

fun run_op :: "op \<Rightarrow> world \<Rightarrow> world" where
  "run_op (Get k) w = snd (get k w)"
| "run_op (Set k v nx) w = snd (set_kv k v nx w)"
| "run_op (Setex k t v) w = snd (setex k t v w)"
| "run_op (Incr k) w = snd (incr k w)"
| "run_op (Hset k m) w = snd (hset k m w)"
| "run_op (Hgetall k) w = snd (hgetall k w)"
| "run_op (Sadd k ms) w = snd (sadd k ms w)"
| "run_op (Srem k ms) w = snd (srem k ms w)"
| "run_op (Smembers k) w = snd (smembers k w)"
| "run_op (Sismember k m) w = snd (sismember k m w)"
| "run_op (Scard k) w = snd (scard k w)"
| "run_op (Delete k) w = snd (delete k w)"

fun writes :: "string \<Rightarrow> op \<Rightarrow> bool" where
  "writes key (Set k v nx) = (k = key)"
| "writes key (Setex k t v) = (k = key)"
| "writes key (Incr k) = (k = key)"
| "writes key (Delete k) = (k = key)"
| "writes key _ = False"

text \<open>
  The key still carries the deadline \<open>d\<close>, or a cleanup has already removed it from
  \<open>_kv\<close> and \<open>_ttl\<close>.
\<close>

definition gone_or_due :: "string \<Rightarrow> real \<Rightarrow> world \<Rightarrow> bool" where
  "gone_or_due key d w = (ttl w key = Some d \<or> (kv w key = None \<and> ttl w key = None))"

section \<open>Concrete stores\<close>

definition w_empty :: world where
  "w_empty = \<lparr>kv = Map.empty, hash = Map.empty, sets = Map.empty, ttl = Map.empty,
              clock = sconst 0, iso_clock = sconst ''2026-01-01T00:00:00+00:00''\<rparr>"

text \<open>The store after alice has registered as user 1.\<close>

definition w_alice :: world where
  "w_alice = w_empty\<lparr>
     kv := [''users:seq'' \<mapsto> PInt 1, ''user:byname:alice'' \<mapsto> PInt 1],
     hash := [''user:1'' \<mapsto> [(''id'', ''1''), (''username'', ''alice''),
                               (''password_hash'', ''H''),
                               (''created_at'', ''2026-01-01T00:00:00+00:00'')]]\<rparr>"

text \<open>Two stores whose clock jumps after the first readings.\<close>

definition w_late :: world where
  "w_late = w_empty\<lparr>clock := 0 ## 0 ## sconst 100\<rparr>"

definition w_alice_late :: world where
  "w_alice_late = w_alice\<lparr>clock := 0 ## 0 ## 0 ## 0 ## 0 ## sconst 700000\<rparr>"

definition alice_login :: LoginRequest where
  "alice_login = \<lparr>login_username = '' alice'', login_password = ''secret1''\<rparr>"

text \<open>\<open>self._sets.get(key, set())\<close>\<close>

definition members :: "world \<Rightarrow> string \<Rightarrow> pyval fset" where
  "members w key = (case sets w key of None \<Rightarrow> {||} | Some s \<Rightarrow> s)"

text \<open>The store after alice has logged in with the token \<open>tok\<close>.\<close>

definition w_alice_session :: world where
  "w_alice_session = w_alice\<lparr>
     kv := (kv w_alice)(''session:tok'' \<mapsto> PStr ''1''),
     ttl := [''session:tok'' \<mapsto> 604800],
     sets := [''user:sessions:1'' \<mapsto> {|PStr ''tok''|}]\<rparr>"

definition bob_login :: LoginRequest where
  "bob_login = \<lparr>login_username = ''bob'', login_password = ''secret1''\<rparr>"

definition alice_bad_login :: LoginRequest where
  "alice_bad_login = \<lparr>login_username = ''alice'', login_password = ''wrong''\<rparr>"


text \<open>\<open>self._hash.get(key, {})\<close>\<close>

definition record_of :: "world \<Rightarrow> string \<Rightarrow> pydict" where
  "record_of w key = (case hash w key of None \<Rightarrow> [] | Some h \<Rightarrow> h)"



record PostUpdate =
  upd_title :: "string option"
  upd_content :: "string option"

record PostPublic =
  post_id :: string
  post_title :: string
  post_content :: string
  post_author :: string
  post_likes :: int
  post_comments :: int
  post_createdAt :: string


record LikeResponse =
  liked :: bool
  likes :: int

text \<open>
  The default author name of the source is a literal of four CJK characters; it stands
  here as its UTF-8 bytes. No property below depends on it.
\<close>

definition anonymous_author :: string where
  "anonymous_author =
     [CHR 0xE5, CHR 0x8C, CHR 0xBF, CHR 0xE5, CHR 0x90, CHR 0x8D,
      CHR 0xE5, CHR 0xAE, CHR 0x81, CHR 0xE5, CHR 0x8F, CHR 0x8B]"

text \<open>\<open>_get_user_by_token\<close>; \<open>user["id"]\<close> and \<open>user["username"]\<close> raise \<open>KeyError\<close>.\<close>

definition get_user_by_token :: "string \<Rightarrow> world \<Rightarrow> (error + UserPublic) \<times> world" where
  "get_user_by_token token w =
     (case get (''session:'' @ token) w of
        (uid, w1) \<Rightarrow>
          if \<not> truthy uid then (Inl (HTTPException 401 ''Unauthorized''), w1)
          else
            (case hgetall (''user:'' @ the uid) w1 of
               (user, w2) \<Rightarrow>
                 if user = [] then (Inl (HTTPException 401 ''Unauthorized''), w2)
                 else
                   (case map_of user ''id'' of
                      None \<Rightarrow> (Inl KeyError, w2)
                    | Some i \<Rightarrow>
                        (case map_of user ''username'' of
                           None \<Rightarrow> (Inl KeyError, w2)
                         | Some n \<Rightarrow> (Inr \<lparr>user_id = i, user_name = n\<rparr>, w2)))))"

text \<open>The test \<open>not data or data.get("deleted") == "1"\<close>.\<close>

definition missing_or_deleted :: "pydict \<Rightarrow> bool" where
  "missing_or_deleted data = (data = [] \<or> map_of data ''deleted'' = Some ''1'')"





text \<open>The \<open>mapping\<close> that \<open>update_post\<close> builds from the fields that are not \<open>None\<close>.\<close>

definition update_mapping :: "PostUpdate \<Rightarrow> pydict" where
  "update_mapping payload =
     (case upd_title payload of None \<Rightarrow> [] | Some t \<Rightarrow> [(''title'', t)])
     @ (case upd_content payload of None \<Rightarrow> [] | Some c \<Rightarrow> [(''content'', c)])"

definition update_post ::
  "string \<Rightarrow> PostUpdate \<Rightarrow> string \<Rightarrow> world option \<Rightarrow> (error + PostPublic) \<times> world option" where
  "update_post pid payload token redis_client = with_redis redis_client (\<lambda>w.
     (case hgetall (''forum:post:'' @ pid) w of
        (data, w1) \<Rightarrow>
          if missing_or_deleted data then (Inl (HTTPException 404 ''Post not found''), w1)
          else
            (case get_user_by_token token w1 of
               (Inl e, w2) \<Rightarrow> (Inl e, w2)
             | (Inr user, w2) \<Rightarrow>
                 if map_of data ''author_id'' \<noteq> Some (user_id user)
                 then (Inl (HTTPException 403 ''Forbidden''), w2)
                 else
                   let mapping = update_mapping payload;
                       w3 = (if mapping \<noteq> [] then snd (hset (''forum:post:'' @ pid) mapping w2) else w2)
                   in
                   (case scard (''forum:post:'' @ pid @ '':likes'') w3 of
                      (n_likes, w4) \<Rightarrow>
                        (case get (''forum:post:'' @ pid @ '':comments_cnt'') w4 of
                           (c, w5) \<Rightarrow>
                             (case int_or_zero c of
                                None \<Rightarrow> (Inl ValueError, w5)
                              | Some n_comments \<Rightarrow>
                                  (case hgetall (''forum:post:'' @ pid) w5 of
                                     (final, w6) \<Rightarrow>
                                       (case now_iso w6 of
                                          (now, w7) \<Rightarrow>
                                            (Inr \<lparr>post_id = pid,
                                                  post_title = dict_get final ''title'' [],
                                                  post_content = dict_get final ''content'' [],
                                                  post_author = dict_get final ''author'' anonymous_author,
                                                  post_likes = n_likes,
                                                  post_comments = n_comments,
                                                  post_createdAt = dict_get final ''created_at'' now\<rparr>,
                                             w7)))))))))"

definition delete_post :: "string \<Rightarrow> string \<Rightarrow> world option \<Rightarrow> (error + bool) \<times> world option" where
  "delete_post pid token redis_client = with_redis redis_client (\<lambda>w.
     (case hgetall (''forum:post:'' @ pid) w of
        (data, w1) \<Rightarrow>
          if missing_or_deleted data then (Inl (HTTPException 404 ''Post not found''), w1)
          else
            (case get_user_by_token token w1 of
               (Inl e, w2) \<Rightarrow> (Inl e, w2)
             | (Inr user, w2) \<Rightarrow>
                 if map_of data ''author_id'' \<noteq> Some (user_id user)
                 then (Inl (HTTPException 403 ''Forbidden''), w2)
                 else
                   (case hset (''forum:post:'' @ pid) [(''deleted'', ''1'')] w2 of
                      (_, w3) \<Rightarrow> (Inr True, w3)))))"

text \<open>The body of \<open>toggle_like\<close> once the caller is resolved.\<close>

definition toggle_like_as :: "string \<Rightarrow> UserPublic \<Rightarrow> world \<Rightarrow> LikeResponse \<times> world" where
  "toggle_like_as pid user w =
     (let key = ''forum:post:'' @ pid @ '':likes'' in
      (case sismember key (PStr (user_id user)) w of
         (was_liked, w1) \<Rightarrow>
           let w2 = (if was_liked then snd (srem key [PStr (user_id user)] w1)
                     else snd (sadd key [PStr (user_id user)] w1))
           in (case scard key w2 of
                 (n, w3) \<Rightarrow> (\<lparr>liked = \<not> was_liked, likes = n\<rparr>, w3))))"

definition toggle_like :: "string \<Rightarrow> string \<Rightarrow> world option \<Rightarrow> (error + LikeResponse) \<times> world option" where
  "toggle_like pid token redis_client = with_redis redis_client (\<lambda>w.
     (case get_user_by_token token w of
        (Inl e, w1) \<Rightarrow> (Inl e, w1)
      | (Inr user, w1) \<Rightarrow>
          (case toggle_like_as pid user w1 of (r, w2) \<Rightarrow> (Inr r, w2))))"




text \<open>
  A store with three users (alice 1, bob 2, carol 3), each logged in, two posts of
  alice's (post 2 soft-deleted) and two comments of bob's on post 1 (comment 2
  soft-deleted); bob likes post 1.
\<close>

definition w_forum :: world where
  "w_forum = w_empty\<lparr>
     kv := [''users:seq'' \<mapsto> PInt 3,
            ''user:byname:alice'' \<mapsto> PInt 1, ''user:byname:bob'' \<mapsto> PInt 2,
            ''user:byname:carol'' \<mapsto> PInt 3,
            ''session:tok'' \<mapsto> PStr ''1'', ''session:tokb'' \<mapsto> PStr ''2'',
            ''session:tokc'' \<mapsto> PStr ''3'',
            ''forum:post_seq'' \<mapsto> PInt 2, ''forum:post:1:comments_cnt'' \<mapsto> PInt 2],
     hash := [''user:1'' \<mapsto> [(''id'', ''1''), (''username'', ''alice''), (''password_hash'', ''H'')],
              ''user:2'' \<mapsto> [(''id'', ''2''), (''username'', ''bob''), (''password_hash'', ''H'')],
              ''user:3'' \<mapsto> [(''id'', ''3''), (''username'', ''carol''), (''password_hash'', ''H'')],
              ''forum:post:1'' \<mapsto> [(''id'', ''1''), (''title'', ''T''), (''content'', ''C''),
                                   (''author'', ''alice''), (''author_id'', ''1''),
                                   (''created_at'', ''2026-01-01''), (''deleted'', ''0'')],
              ''forum:post:2'' \<mapsto> [(''id'', ''2''), (''title'', ''T2''), (''content'', ''C2''),
                                   (''author'', ''alice''), (''author_id'', ''1''),
                                   (''created_at'', ''2026-01-02''), (''deleted'', ''1'')],
              ''forum:comment:1:1'' \<mapsto> [(''id'', ''1''), (''post_id'', ''1''), (''author'', ''bob''),
                                        (''author_id'', ''2''), (''content'', ''hi''),
                                        (''created_at'', ''2026-01-03''), (''deleted'', ''0'')],
              ''forum:comment:1:2'' \<mapsto> [(''id'', ''2''), (''post_id'', ''1''), (''author'', ''bob''),
                                        (''author_id'', ''2''), (''content'', ''oops''),
                                        (''created_at'', ''2026-01-04''), (''deleted'', ''1'')]],
     sets := [''forum:post:1:likes'' \<mapsto> {|PStr ''2''|}]\<rparr>"

definition bob :: UserPublic where
  "bob = \<lparr>user_id = ''2'', user_name = ''bob''\<rparr>"

text \<open>
  The same store read at a clock that has passed the deadline 604800 of the session: the
  entry \<open>session:tok\<close> is still in \<open>_kv\<close>, and the token is still in alice's active-token set.
\<close>

definition w_alice_expired :: world where
  "w_alice_expired = w_alice_session\<lparr>clock := sconst 700000\<rparr>"

text \<open>
  A stand-in for passlib's \<open>bcrypt.verify\<close>: it raises on a password with a NUL character
  and on a hash that does not start with \<open>$2b$\<close>, and otherwise compares the password
  with the rest of the hash.
\<close>

definition verify_stub :: "string \<Rightarrow> string \<Rightarrow> bool option" where
  "verify_stub p h =
     (if CHR 0x00 \<in> set p then None
      else if take 4 h = ''$2b$'' then Some (drop 4 h = p)
      else None)"

text \<open>The store after alice has registered with the password \<open>secret1\<close>, under that stand-in.\<close>

definition w_alice_bcrypt :: world where
  "w_alice_bcrypt = w_empty\<lparr>
     kv := [''users:seq'' \<mapsto> PInt 1, ''user:byname:alice'' \<mapsto> PInt 1],
     hash := [''user:1'' \<mapsto> [(''id'', ''1''), (''username'', ''alice''),
                               (''password_hash'', ''$2b$secret1''),
                               (''created_at'', ''2026-01-01T00:00:00+00:00'')]]\<rparr>"

text \<open>Two logins with the same password, which has a NUL character in it.\<close>

definition alice_nul_login :: LoginRequest where
  "alice_nul_login = \<lparr>login_username = ''alice'', login_password = [CHR ''a'', CHR 0x00]\<rparr>"

definition bob_nul_login :: LoginRequest where
  "bob_nul_login = \<lparr>login_username = ''bob'', login_password = [CHR ''a'', CHR 0x00]\<rparr>"



section \<open>Verification\<close>

lemmas store_defs = get_def set_kv_def setex_def incr_def hset_def hgetall_def sadd_def srem_def
  smembers_def sismember_def scard_def delete_def cleanup_def expired_def Let_def


lemma show_int_1: "show_int 1 = ''1''"
  by (simp add: show_int_def show_nat.simps digit_char_def)

lemma with_redis_Some: "with_redis (Some w) body = (fst (body w), Some (snd (body w)))"
  by (simp add: with_redis_def split: prod.splits)

lemma login_world: "login bv tok sttl p (Some w) = (r, rc) \<Longrightarrow> rc = Some (the rc)"
  by (auto simp: login_def with_redis_Some)

lemma kv_cleanup: "kv (cleanup w) k = (if expired w (shd (clock w)) k then None else kv w k)"
  by (simp add: cleanup_def Let_def)

lemma ttl_cleanup: "ttl (cleanup w) k = (if expired w (shd (clock w)) k then None else ttl w k)"
  by (simp add: cleanup_def Let_def)

lemma other_cleanup:
  "hash (cleanup w) = hash w" "sets (cleanup w) = sets w"
  "clock (cleanup w) = stl (clock w)" "iso_clock (cleanup w) = iso_clock w"
  by (simp_all add: cleanup_def Let_def)

lemma gone_or_due_cleanup: "gone_or_due key d w \<Longrightarrow> gone_or_due key d (cleanup w)"
  by (auto simp: gone_or_due_def kv_cleanup ttl_cleanup)

lemma gone_or_due_run_op:
  "gone_or_due key d w \<Longrightarrow> \<not> writes key op \<Longrightarrow> gone_or_due key d (run_op op w)"
  using gone_or_due_cleanup [of key d w]
  by (cases op)
     (auto simp: gone_or_due_def get_def set_kv_def setex_def incr_def hset_def hgetall_def
        sadd_def srem_def smembers_def sismember_def scard_def delete_def Let_def
        split: option.splits)

lemma gone_or_due_fold:
  "gone_or_due key d w \<Longrightarrow> \<forall>op \<in> set ops. \<not> writes key op \<Longrightarrow> gone_or_due key d (fold run_op ops w)"
  by (induction ops arbitrary: w) (auto intro: gone_or_due_run_op)

lemma get_gone_or_due:
  "gone_or_due key d w \<Longrightarrow> d \<le> shd (clock w) \<Longrightarrow> fst (get key w) = None"
  by (auto simp: gone_or_due_def get_def Let_def kv_cleanup expired_def)

lemma setex_due: "gone_or_due key (shd (stl (clock w)) + real_of_int t) (snd (setex key t v w))"
  by (simp add: gone_or_due_def setex_def Let_def other_cleanup)


lemma get_user_by_username_clock:
  "get_user_by_username u w = (Some user, wa) \<Longrightarrow> clock wa = stl (stl (clock w))"
  by (auto simp: get_user_by_username_def get_def hgetall_def Let_def other_cleanup split: if_splits)

lemma login_due:
  assumes "login bv token sttl payload (Some w) = (Inr tok, Some w1)"
  shows "gone_or_due (''session:'' @ token) (clock w !! 3 + real_of_int sttl) w1"
proof -
  obtain r wa where a: "get_user_by_username (py_strip (login_username payload)) w = (r, wa)"
    by (cases "get_user_by_username (py_strip (login_username payload)) w")
  with assms obtain user uid x wb y where r: "r = Some user"
    and c1: "setex (''session:'' @ token) sttl (PStr uid) wa = (x, wb)"
    and c2: "sadd (''user:sessions:'' @ uid) [PStr token] wb = (y, w1)"
    by (auto simp: login_def with_redis_def split: prod.splits option.splits bool.splits if_splits)
  have c: "w1 = snd (sadd (''user:sessions:'' @ uid) [PStr token]
                   (snd (setex (''session:'' @ token) sttl (PStr uid) wa)))"
    using c1 c2 by simp
  have ca: "clock wa = stl (stl (clock w))"
    using a r get_user_by_username_clock by blast
  have "gone_or_due (''session:'' @ token) (clock w !! 3 + real_of_int sttl)
          (snd (setex (''session:'' @ token) sttl (PStr uid) wa))"
    using setex_due [of "''session:'' @ token" wa sttl "PStr uid"] by (simp add: ca numeral_3_eq_3)
  then show ?thesis
    unfolding c
    using gone_or_due_run_op [of _ _ _ "Sadd (''user:sessions:'' @ uid) [PStr token]"] by simp
qed

text \<open>
  Claim C2. A key written by \<open>setex\<close> reads as absent in every \<open>get\<close> whose clock
  reading has reached the deadline the \<open>setex\<close> recorded, whatever store operations
  that do not write the key ran in between; no sweep other than the one on the read path
  is needed. Hence, after a successful login, resolving the token fails with 401
  Unauthorized once the clock has reached the deadline of the session.
\<close>

theorem expired_key_reads_absent:
  "((\<forall>op \<in> set ops. \<not> writes key op) \<longrightarrow>
      shd (stl (clock w)) + real_of_int t \<le> shd (clock (fold run_op ops (snd (setex key t v w)))) \<longrightarrow>
      fst (get key (fold run_op ops (snd (setex key t v w)))) = None)
   \<and> (login bv token sttl payload (Some w) = (Inr tok, Some w1) \<longrightarrow>
      (\<forall>op \<in> set ops. \<not> writes (''session:'' @ token) op) \<longrightarrow>
      clock w !! 3 + real_of_int sttl \<le> shd (clock (fold run_op ops w1)) \<longrightarrow>
      fst (resolve_user_from_token token (Some (fold run_op ops w1)))
        = Inl (HTTPException 401 ''Unauthorized''))"
proof (intro conjI impI)
  assume "\<forall>op \<in> set ops. \<not> writes key op"
    and "shd (stl (clock w)) + real_of_int t \<le> shd (clock (fold run_op ops (snd (setex key t v w))))"
  then show "fst (get key (fold run_op ops (snd (setex key t v w)))) = None"
    using get_gone_or_due gone_or_due_fold setex_due by blast
next
  assume l: "login bv token sttl payload (Some w) = (Inr tok, Some w1)"
    and o: "\<forall>op \<in> set ops. \<not> writes (''session:'' @ token) op"
    and d: "clock w !! 3 + real_of_int sttl \<le> shd (clock (fold run_op ops w1))"
  have "fst (get (''session:'' @ token) (fold run_op ops w1)) = None"
    using get_gone_or_due [OF gone_or_due_fold [OF login_due [OF l] o] d] .
  then show "fst (resolve_user_from_token token (Some (fold run_op ops w1)))
        = Inl (HTTPException 401 ''Unauthorized'')"
    by (cases "get (''session:'' @ token) (fold run_op ops w1)")
       (simp add: resolve_user_from_token_def with_redis_def)
qed

theorem expired_key_reads_absent_witness:
  "list_all (\<lambda>op. \<not> writes ''k'' op) [Get ''k'', Incr ''n'', Sadd ''s'' [PInt 1]]
   \<and> shd (stl (clock w_late)) + real_of_int 60
       \<le> shd (clock (fold run_op [Get ''k'', Incr ''n'', Sadd ''s'' [PInt 1]]
                      (snd (setex ''k'' 60 (PStr ''v'') w_late))))
   \<and> fst (get ''k'' (fold run_op [Get ''k'', Incr ''n'', Sadd ''s'' [PInt 1]]
                      (snd (setex ''k'' 60 (PStr ''v'') w_late)))) = None
   \<and> fst (login (\<lambda>p h. Some True) ''tok'' 604800 alice_login (Some w_alice_late)) = Inr ''tok''
   \<and> list_all (\<lambda>op. \<not> writes (''session:'' @ ''tok'') op) [Hgetall ''user:1'']
   \<and> clock w_alice_late !! 3 + real_of_int 604800
       \<le> shd (clock (fold run_op [Hgetall ''user:1'']
             (the (snd (login (\<lambda>p h. Some True) ''tok'' 604800 alice_login (Some w_alice_late))))))
   \<and> fst (resolve_user_from_token ''tok''
        (Some (fold run_op [Hgetall ''user:1'']
           (the (snd (login (\<lambda>p h. Some True) ''tok'' 604800 alice_login (Some w_alice_late)))))))
      = Inl (HTTPException 401 ''Unauthorized'')"
proof -
  let ?L = "login (\<lambda>p h. Some True) ''tok'' 604800 alice_login (Some w_alice_late)"
  have l1: "fst ?L = Inr ''tok''"
    by (simp add: login_def with_redis_def get_user_by_username_def store_defs
      w_alice_late_def w_alice_def w_empty_def alice_login_def show_int_1 py_strip_def
      is_space_def dict_get_def)
  have l: "?L = (Inr ''tok'', Some (the (snd ?L)))"
    using l1 login_world [of _ _ _ _ _ "fst ?L" "snd ?L"] by (metis prod.collapse)
  have c: "shd (clock (fold run_op [Hgetall ''user:1''] (the (snd ?L)))) = 700000"
    by (simp add: login_def with_redis_def get_user_by_username_def store_defs
      w_alice_late_def w_alice_def w_empty_def alice_login_def show_int_1 py_strip_def
      is_space_def dict_get_def)
  have d: "clock w_alice_late !! 3 = 0"
    by (simp add: w_alice_late_def numeral_3_eq_3)
  have e: "shd (clock (fold run_op [Get ''k'', Incr ''n'', Sadd ''s'' [PInt 1]]
                      (snd (setex ''k'' 60 (PStr ''v'') w_late)))) = 100"
    by (simp add: store_defs w_late_def w_empty_def)
  have f: "shd (stl (clock w_late)) = 0"
    by (simp add: w_late_def)
  have p1: "fst (get ''k'' (fold run_op [Get ''k'', Incr ''n'', Sadd ''s'' [PInt 1]]
                      (snd (setex ''k'' 60 (PStr ''v'') w_late)))) = None"
    using expired_key_reads_absent [of "[Get ''k'', Incr ''n'', Sadd ''s'' [PInt 1]]" "''k''" w_late 60 "PStr ''v''"]
    by (simp only: e f) simp
  have p2: "fst (resolve_user_from_token ''tok''
        (Some (fold run_op [Hgetall ''user:1''] (the (snd ?L)))))
      = Inl (HTTPException 401 ''Unauthorized'')"
    using expired_key_reads_absent [of "[Hgetall ''user:1'']" _ w_alice_late _ _ "\<lambda>p h. Some True" "''tok''" 604800 alice_login "''tok''"
         "the (snd ?L)"] l
    by (simp only: c d) simp
  show ?thesis
    using p1 p2 l1 by (simp only: c d e f) simp
qed


lemma seq_not_byname: "''users:seq'' \<noteq> ''user:byname:'' @ u"
  by simp







lemma hgetall_eq: "hgetall key w = (record_of w key, cleanup w)"
  by (simp add: hgetall_def record_of_def Let_def other_cleanup)

lemma get_user_by_token_hash: "hash (snd (get_user_by_token token w)) = hash w"
  by (simp add: get_user_by_token_def get_def hgetall_def Let_def other_cleanup split: option.splits)

lemma get_user_by_token_sets: "sets (snd (get_user_by_token token w)) = sets w"
  by (simp add: get_user_by_token_def get_def hgetall_def Let_def other_cleanup split: option.splits)

text \<open>
  Claim C3. Let the post exist and not be soft-deleted, let the caller's token resolve to
  a user (in the store as the handler's first read leaves it), and let the post's stored
  \<open>author_id\<close> differ from that user's id. Then \<open>update_post\<close> and \<open>delete_post\<close> both fail
  with 403 Forbidden and leave every hash record, the post's among them, as it was. The
  user is arbitrary: this holds for every identity that is not the author.
\<close>

theorem non_owner_forbidden:
  assumes "\<not> missing_or_deleted (record_of w (''forum:post:'' @ pid))"
    and "fst (get_user_by_token token (cleanup w)) = Inr user"
    and "map_of (record_of w (''forum:post:'' @ pid)) ''author_id'' \<noteq> Some (user_id user)"
  shows "fst (update_post pid payload token (Some w)) = Inl (HTTPException 403 ''Forbidden'')
       \<and> hash (the (snd (update_post pid payload token (Some w)))) = hash w
       \<and> fst (delete_post pid token (Some w)) = Inl (HTTPException 403 ''Forbidden'')
       \<and> hash (the (snd (delete_post pid token (Some w)))) = hash w"
proof -
  obtain r w2 where g: "get_user_by_token token (cleanup w) = (r, w2)"
    by (cases "get_user_by_token token (cleanup w)")
  with assms(2) have r: "r = Inr user" by simp
  have h: "hash w2 = hash w"
    using get_user_by_token_hash [of token "cleanup w"] g by (simp add: other_cleanup)
  show ?thesis
    using assms(1,3) g r h
    by (simp add: update_post_def delete_post_def with_redis_def hgetall_eq)
qed

lemma w_forum_bob:
  "fst (get_user_by_token ''tokb'' (cleanup w_forum)) = Inr \<lparr>user_id = ''2'', user_name = ''bob''\<rparr>"
  by (simp add: get_user_by_token_def store_defs w_forum_def w_empty_def)

lemma w_forum_carol:
  "fst (get_user_by_token ''tokc'' (cleanup w_forum)) = Inr \<lparr>user_id = ''3'', user_name = ''carol''\<rparr>"
  by (simp add: get_user_by_token_def store_defs w_forum_def w_empty_def)

lemma w_forum_post1:
  "record_of w_forum ''forum:post:1'' =
     [(''id'', ''1''), (''title'', ''T''), (''content'', ''C''), (''author'', ''alice''),
      (''author_id'', ''1''), (''created_at'', ''2026-01-01''), (''deleted'', ''0'')]"
  by (simp add: record_of_def w_forum_def w_empty_def)

theorem non_owner_forbidden_witness:
  "\<not> missing_or_deleted (record_of w_forum (''forum:post:'' @ ''1''))
   \<and> fst (get_user_by_token ''tokb'' (cleanup w_forum)) = Inr \<lparr>user_id = ''2'', user_name = ''bob''\<rparr>
   \<and> fst (get_user_by_token ''tokc'' (cleanup w_forum)) = Inr \<lparr>user_id = ''3'', user_name = ''carol''\<rparr>
   \<and> map_of (record_of w_forum (''forum:post:'' @ ''1'')) ''author_id'' = Some ''1''
   \<and> fst (update_post ''1'' \<lparr>upd_title = Some ''X'', upd_content = None\<rparr> ''tokb'' (Some w_forum))
        = Inl (HTTPException 403 ''Forbidden'')
   \<and> fst (delete_post ''1'' ''tokb'' (Some w_forum)) = Inl (HTTPException 403 ''Forbidden'')
   \<and> fst (update_post ''1'' \<lparr>upd_title = Some ''X'', upd_content = None\<rparr> ''tokc'' (Some w_forum))
        = Inl (HTTPException 403 ''Forbidden'')
   \<and> fst (delete_post ''1'' ''tokc'' (Some w_forum)) = Inl (HTTPException 403 ''Forbidden'')
   \<and> hash (the (snd (delete_post ''1'' ''tokc'' (Some w_forum)))) = hash w_forum"
proof -
  have a: "\<not> missing_or_deleted (record_of w_forum (''forum:post:'' @ ''1''))"
    using w_forum_post1 by (simp add: missing_or_deleted_def)
  have b: "map_of (record_of w_forum (''forum:post:'' @ ''1'')) ''author_id'' = Some ''1''"
    using w_forum_post1 by simp
  have nb: "map_of (record_of w_forum (''forum:post:'' @ ''1'')) ''author_id''
             \<noteq> Some (user_id \<lparr>user_id = ''2'', user_name = ''bob''\<rparr>)"
    and nc: "map_of (record_of w_forum (''forum:post:'' @ ''1'')) ''author_id''
             \<noteq> Some (user_id \<lparr>user_id = ''3'', user_name = ''carol''\<rparr>)"
    using b by simp_all
  show ?thesis
    using non_owner_forbidden [OF a w_forum_bob nb, of "\<lparr>upd_title = Some ''X'', upd_content = None\<rparr>"]
      non_owner_forbidden [OF a w_forum_carol nc, of "\<lparr>upd_title = Some ''X'', upd_content = None\<rparr>"]
      a b w_forum_bob w_forum_carol
    by blast
qed

lemma toggle_like_as_eq:
  "fst (toggle_like_as pid user w) =
     (let key = ''forum:post:'' @ pid @ '':likes''; m = PStr (user_id user); s = members w key
      in \<lparr>liked = m |\<notin>| s,
          likes = int (fcard (if m |\<in>| s then s |-| {|m|} else finsert m s))\<rparr>)"
  "sets (snd (toggle_like_as pid user w)) =
     (let key = ''forum:post:'' @ pid @ '':likes''; m = PStr (user_id user); s = members w key
      in (sets w)(key \<mapsto> (if m |\<in>| s then s |-| {|m|} else finsert m s)))"
  by (simp_all add: toggle_like_as_def sismember_def srem_def sadd_def scard_def Let_def
        other_cleanup members_def)

lemma members_sets: "sets w' = sets w \<Longrightarrow> members w' = members w"
  by (simp add: members_def fun_eq_iff)

lemma toggle_like_Inr:
  assumes "fst (get_user_by_token token w) = Inr user"
  shows "toggle_like pid token (Some w) =
          (Inr (fst (toggle_like_as pid user (snd (get_user_by_token token w)))),
           Some (snd (toggle_like_as pid user (snd (get_user_by_token token w)))))"
  using assms
  by (cases "get_user_by_token token w")
     (simp add: toggle_like_def with_redis_def split: prod.splits)

lemma toggle_like_as_members:
  assumes "key = ''forum:post:'' @ pid @ '':likes''" "m = PStr (user_id user)"
  shows "fst (toggle_like_as pid user w)
           = \<lparr>liked = m |\<notin>| members w key,
              likes = int (fcard (members (snd (toggle_like_as pid user w)) key))\<rparr>"
    and "members (snd (toggle_like_as pid user w)) key
           = (if m |\<in>| members w key then members w key |-| {|m|} else finsert m (members w key))"
  using toggle_like_as_eq [of pid user w] unfolding assms
  by (simp_all add: Let_def members_def)

lemma flip_twice:
  "(if m |\<in>| (if m |\<in>| s then s |-| {|m|} else finsert m s)
    then (if m |\<in>| s then s |-| {|m|} else finsert m s) |-| {|m|}
    else finsert m (if m |\<in>| s then s |-| {|m|} else finsert m s)) = s"
  by auto

lemma fcard_flip:
  "int (fcard (if m |\<in>| s then s |-| {|m|} else finsert m s))
     = (if m |\<in>| s then int (fcard s) - 1 else int (fcard s) + 1)"
  using fcard_Suc_fminus1 [of m s] by (auto simp: fcard_finsert_disjoint)

text \<open>
  Claim C7. Let two \<open>toggle_like\<close> calls on the same post follow each other, the second on
  the store the first one left, and let both callers resolve to the same user id. Then
  the likes set after the second call is the set before the first, so the user's
  membership and the cardinality are the original ones; the second response reports the
  original membership and the original cardinality, and the first response reports the
  flipped membership, with the cardinality one lower or one higher.
\<close>

theorem toggle_like_twice:
  assumes a1: "fst (get_user_by_token token w) = Inr u1"
    and a2: "fst (get_user_by_token token' (the (snd (toggle_like pid token (Some w))))) = Inr u2"
    and same: "user_id u2 = user_id u1"
  shows
    "members (the (snd (toggle_like pid token' (snd (toggle_like pid token (Some w))))))
        (''forum:post:'' @ pid @ '':likes'')
      = members w (''forum:post:'' @ pid @ '':likes'')
     \<and> fst (toggle_like pid token' (snd (toggle_like pid token (Some w))))
        = Inr \<lparr>liked = PStr (user_id u1) |\<in>| members w (''forum:post:'' @ pid @ '':likes''),
               likes = int (fcard (members w (''forum:post:'' @ pid @ '':likes'')))\<rparr>
     \<and> fst (toggle_like pid token (Some w))
        = Inr \<lparr>liked = PStr (user_id u1) |\<notin>| members w (''forum:post:'' @ pid @ '':likes''),
               likes = (if PStr (user_id u1) |\<in>| members w (''forum:post:'' @ pid @ '':likes'')
                        then int (fcard (members w (''forum:post:'' @ pid @ '':likes''))) - 1
                        else int (fcard (members w (''forum:post:'' @ pid @ '':likes''))) + 1)\<rparr>"
proof -
  define key where "key = ''forum:post:'' @ pid @ '':likes''"
  define m where "m = PStr (user_id u1)"
  define wa where "wa = snd (get_user_by_token token w)"
  define w1 where "w1 = snd (toggle_like_as pid u1 wa)"
  define wb where "wb = snd (get_user_by_token token' w1)"
  define w2 where "w2 = snd (toggle_like_as pid u2 wb)"
  define s where "s = members w key"
  have m': "m = PStr (user_id u2)" by (simp add: m_def same)
  have t1: "toggle_like pid token (Some w) = (Inr (fst (toggle_like_as pid u1 wa)), Some w1)"
    unfolding w1_def wa_def using toggle_like_Inr [OF a1] .
  from a2 have a2': "fst (get_user_by_token token' w1) = Inr u2"
    by (simp add: t1)
  have t2: "toggle_like pid token' (Some w1) = (Inr (fst (toggle_like_as pid u2 wb)), Some w2)"
    unfolding w2_def wb_def using toggle_like_Inr [OF a2'] .
  have ma: "members wa key = s"
    unfolding wa_def s_def using members_sets [OF get_user_by_token_sets] by metis
  have mb: "members wb key = members w1 key"
    unfolding wb_def using members_sets [OF get_user_by_token_sets] by metis
  have m1: "members w1 key = (if m |\<in>| s then s |-| {|m|} else finsert m s)"
    unfolding w1_def using toggle_like_as_members(2) [OF key_def m_def, of wa] by (simp only: ma)
  have m2: "members w2 key = s"
    unfolding w2_def using toggle_like_as_members(2) [OF key_def m', of wb]
    by (simp only: mb m1 flip_twice)
  have r1: "fst (toggle_like_as pid u1 wa)
      = \<lparr>liked = m |\<notin>| s, likes = (if m |\<in>| s then int (fcard s) - 1 else int (fcard s) + 1)\<rparr>"
    using toggle_like_as_members(1) [OF key_def m_def, of wa]
    by (simp only: ma m1 [unfolded w1_def] fcard_flip)
  have "m |\<in>| members w1 key \<longleftrightarrow> m |\<notin>| s"
    by (auto simp: m1)
  then have r2: "fst (toggle_like_as pid u2 wb) = \<lparr>liked = m |\<in>| s, likes = int (fcard s)\<rparr>"
    using toggle_like_as_members(1) [OF key_def m', of wb]
    by (simp only: mb m2 [unfolded w2_def]) simp
  have "members (the (snd (toggle_like pid token' (snd (toggle_like pid token (Some w)))))) key = s
     \<and> fst (toggle_like pid token' (snd (toggle_like pid token (Some w))))
        = Inr \<lparr>liked = m |\<in>| s, likes = int (fcard s)\<rparr>
     \<and> fst (toggle_like pid token (Some w))
        = Inr \<lparr>liked = m |\<notin>| s,
               likes = (if m |\<in>| s then int (fcard s) - 1 else int (fcard s) + 1)\<rparr>"
    by (simp add: t1 t2 m2 r1 r2)
  then show ?thesis
    unfolding s_def key_def m_def .
qed

lemma w_forum_bob_now: "fst (get_user_by_token ''tokb'' w_forum) = Inr bob"
  by (simp add: get_user_by_token_def store_defs w_forum_def w_empty_def bob_def)

lemma w_forum_bob_again:
  "fst (get_user_by_token ''tokb'' (the (snd (toggle_like ''1'' ''tokb'' (Some w_forum))))) = Inr bob"
  by (simp add: toggle_like_def toggle_like_as_def with_redis_def get_user_by_token_def store_defs
        w_forum_def w_empty_def bob_def)

lemma w_forum_likes: "members w_forum (''forum:post:'' @ ''1'' @ '':likes'') = {|PStr ''2''|}"
  by (simp add: members_def w_forum_def w_empty_def)

theorem toggle_like_twice_witness:
  "fst (get_user_by_token ''tokb'' w_forum) = Inr bob
   \<and> fst (get_user_by_token ''tokb'' (the (snd (toggle_like ''1'' ''tokb'' (Some w_forum))))) = Inr bob
   \<and> members w_forum (''forum:post:'' @ ''1'' @ '':likes'') = {|PStr ''2''|}
   \<and> fst (toggle_like ''1'' ''tokb'' (Some w_forum)) = Inr \<lparr>liked = False, likes = 0\<rparr>
   \<and> fst (toggle_like ''1'' ''tokb'' (snd (toggle_like ''1'' ''tokb'' (Some w_forum))))
        = Inr \<lparr>liked = True, likes = 1\<rparr>
   \<and> members (the (snd (toggle_like ''1'' ''tokb'' (snd (toggle_like ''1'' ''tokb'' (Some w_forum))))))
        (''forum:post:'' @ ''1'' @ '':likes'') = {|PStr ''2''|}"
proof -
  have i: "user_id bob = ''2''" by (simp add: bob_def)
  show ?thesis
    using toggle_like_twice [OF w_forum_bob_now w_forum_bob_again refl]
      w_forum_bob_now w_forum_bob_again w_forum_likes i
    by (simp add: fcard_finsert_disjoint)
qed

lemma logout_Some:
  "logout token (Some w) =
     (Inr True,
      Some (if truthy (fst (get (''session:'' @ token) w))
            then snd (srem (''user:sessions:'' @ the (fst (get (''session:'' @ token) w))) [PStr token]
                   (snd (delete (''session:'' @ token) (snd (get (''session:'' @ token) w)))))
            else snd (get (''session:'' @ token) w)))"
  by (simp add: logout_def with_redis_def split: prod.splits)

lemma get_live:
  "kv w key = Some v \<Longrightarrow> \<not> expired w (shd (clock w)) key \<Longrightarrow> fst (get key w) = Some (py_str v)"
  by (simp add: get_def Let_def kv_cleanup)

lemma get_absent:
  "kv w key = None \<or> expired w (shd (clock w)) key \<Longrightarrow> fst (get key w) = None"
  by (auto simp: get_def Let_def kv_cleanup)

lemma snd_get: "snd (get key w) = cleanup w"
  by (simp add: get_def Let_def)

lemma logout_again_falsy:
  "\<not> truthy (fst (get (''session:'' @ token) (the (snd (logout token (Some w))))))"
proof (cases "truthy (fst (get (''session:'' @ token) w))")
  case True
  have "kv (the (snd (logout token (Some w)))) (''session:'' @ token) = None"
    using True by (simp add: logout_Some srem_def delete_def Let_def kv_cleanup)
  then show ?thesis
    using get_absent [of "the (snd (logout token (Some w)))" "''session:'' @ token"] by simp
next
  case False
  then have e: "the (snd (logout token (Some w))) = cleanup w"
    by (simp add: logout_Some snd_get)
  have "kv (cleanup (cleanup w)) (''session:'' @ token) = None
      \<or> kv (cleanup (cleanup w)) (''session:'' @ token) = kv (cleanup w) (''session:'' @ token)"
    by (simp add: kv_cleanup [of "cleanup w"])
  then show ?thesis
    using False unfolding e by (auto simp: get_def Let_def)
qed

lemma logout_live:
  assumes k: "kv w (''session:'' @ token) = Some v" and u: "py_str v \<noteq> []"
    and l: "\<not> expired w (shd (clock w)) (''session:'' @ token)"
  shows "kv (the (snd (logout token (Some w)))) (''session:'' @ token) = None"
    and "ttl (the (snd (logout token (Some w)))) (''session:'' @ token) = None"
    and "members (the (snd (logout token (Some w)))) (''user:sessions:'' @ py_str v)
            = members w (''user:sessions:'' @ py_str v) |-| {|PStr token|}"
proof -
  have g: "fst (get (''session:'' @ token) w) = Some (py_str v)"
    using get_live [OF k l] .
  let ?w' = "snd (srem (''user:sessions:'' @ py_str v) [PStr token]
                   (snd (delete (''session:'' @ token) (cleanup w))))"
  have e: "the (snd (logout token (Some w))) = ?w'"
    using u g by (simp add: logout_Some snd_get)
  show "kv (the (snd (logout token (Some w)))) (''session:'' @ token) = None"
    unfolding e by (simp add: srem_def delete_def Let_def kv_cleanup)
  show "ttl (the (snd (logout token (Some w)))) (''session:'' @ token) = None"
    unfolding e by (simp add: srem_def delete_def Let_def ttl_cleanup)
  show "members (the (snd (logout token (Some w)))) (''user:sessions:'' @ py_str v)
            = members w (''user:sessions:'' @ py_str v) |-| {|PStr token|}"
    unfolding e by (simp add: srem_def delete_def Let_def members_def other_cleanup)
qed

lemma logout_absent:
  assumes a: "kv w (''session:'' @ token) = None \<or> expired w (shd (clock w)) (''session:'' @ token)"
  shows "snd (logout token (Some w)) = Some (cleanup w)"
  using get_absent [OF a] by (simp add: logout_Some snd_get)

text \<open>
  Claim C6. On an initialised store \<open>logout\<close> returns \<open>{"ok": True}\<close> for every token.
  When \<open>session:{token}\<close> holds a (non-empty) user id whose deadline, if it has one, lies
  after the clock reading of the lookup, the store afterwards has neither the entry nor a
  deadline for it, and the user's active-token set is the old one without the token. When
  the entry is absent, or its deadline has been reached (an expired session, whatever the
  entry holds), the only thing done to the store is the sweep of the lookup: every set,
  the user's active-token set with the stale token among them, is as before, and for the
  expired session the sweep has dropped the entry and its deadline. A second \<open>logout\<close> on
  the store the first one left succeeds as well, and removes nothing.
\<close>

theorem logout_never_fails:
  "fst (logout token (Some w)) = Inr True
   \<and> (\<forall>v. kv w (''session:'' @ token) = Some v \<longrightarrow> py_str v \<noteq> [] \<longrightarrow>
          (\<forall>d. ttl w (''session:'' @ token) = Some d \<longrightarrow> shd (clock w) < d) \<longrightarrow>
        kv (the (snd (logout token (Some w)))) (''session:'' @ token) = None
        \<and> ttl (the (snd (logout token (Some w)))) (''session:'' @ token) = None
        \<and> members (the (snd (logout token (Some w)))) (''user:sessions:'' @ py_str v)
            = members w (''user:sessions:'' @ py_str v) |-| {|PStr token|})
   \<and> (kv w (''session:'' @ token) = None \<longrightarrow>
        snd (logout token (Some w)) = Some (cleanup w)
        \<and> sets (the (snd (logout token (Some w)))) = sets w)
   \<and> (\<forall>d. ttl w (''session:'' @ token) = Some d \<longrightarrow> d \<le> shd (clock w) \<longrightarrow>
        snd (logout token (Some w)) = Some (cleanup w)
        \<and> sets (the (snd (logout token (Some w)))) = sets w
        \<and> kv (the (snd (logout token (Some w)))) (''session:'' @ token) = None
        \<and> ttl (the (snd (logout token (Some w)))) (''session:'' @ token) = None)
   \<and> fst (logout token (snd (logout token (Some w)))) = Inr True
   \<and> sets (the (snd (logout token (snd (logout token (Some w))))))
        = sets (the (snd (logout token (Some w))))"
proof (intro conjI allI impI)
  show "fst (logout token (Some w)) = Inr True"
    by (simp add: logout_Some)
next
  fix v
  assume k: "kv w (''session:'' @ token) = Some v" and u: "py_str v \<noteq> []"
    and l: "\<forall>d. ttl w (''session:'' @ token) = Some d \<longrightarrow> shd (clock w) < d"
  have l': "\<not> expired w (shd (clock w)) (''session:'' @ token)"
    using l by (auto simp: expired_def split: option.splits)
  show "kv (the (snd (logout token (Some w)))) (''session:'' @ token) = None"
    and "ttl (the (snd (logout token (Some w)))) (''session:'' @ token) = None"
    and "members (the (snd (logout token (Some w)))) (''user:sessions:'' @ py_str v)
            = members w (''user:sessions:'' @ py_str v) |-| {|PStr token|}"
    using logout_live [OF k u l'] by blast+
next
  assume a: "kv w (''session:'' @ token) = None"
  then show e: "snd (logout token (Some w)) = Some (cleanup w)"
    using logout_absent [of w token] by blast
  show "sets (the (snd (logout token (Some w)))) = sets w"
    by (simp add: e other_cleanup)
next
  fix d
  assume t: "ttl w (''session:'' @ token) = Some d" and d: "d \<le> shd (clock w)"
  have x: "expired w (shd (clock w)) (''session:'' @ token)"
    using t d by (simp add: expired_def)
  then show e: "snd (logout token (Some w)) = Some (cleanup w)"
    using logout_absent [of w token] by blast
  show "sets (the (snd (logout token (Some w)))) = sets w"
    by (simp add: e other_cleanup)
  show "kv (the (snd (logout token (Some w)))) (''session:'' @ token) = None"
    using x by (simp add: e kv_cleanup)
  show "ttl (the (snd (logout token (Some w)))) (''session:'' @ token) = None"
    using x by (simp add: e ttl_cleanup)
next
  show "fst (logout token (snd (logout token (Some w)))) = Inr True"
    by (simp add: logout_Some)
next
  show "sets (the (snd (logout token (snd (logout token (Some w))))))
        = sets (the (snd (logout token (Some w))))"
    using logout_again_falsy [of token w] by (simp add: logout_Some snd_get other_cleanup)
qed

theorem logout_never_fails_witness:
  "kv w_alice_session (''session:'' @ ''tok'') = Some (PStr ''1'')
   \<and> ttl w_alice_session (''session:'' @ ''tok'') = Some 604800
   \<and> shd (clock w_alice_session) < 604800
   \<and> fst (logout ''tok'' (Some w_alice_session)) = Inr True
   \<and> kv (the (snd (logout ''tok'' (Some w_alice_session)))) (''session:'' @ ''tok'') = None
   \<and> members w_alice_session (''user:sessions:'' @ ''1'') = {|PStr ''tok''|}
   \<and> members (the (snd (logout ''tok'' (Some w_alice_session)))) (''user:sessions:'' @ ''1'') = {||}
   \<and> kv w_alice_expired (''session:'' @ ''tok'') = Some (PStr ''1'')
   \<and> ttl w_alice_expired (''session:'' @ ''tok'') = Some 604800
   \<and> 604800 \<le> shd (clock w_alice_expired)
   \<and> fst (logout ''tok'' (Some w_alice_expired)) = Inr True
   \<and> snd (logout ''tok'' (Some w_alice_expired)) = Some (cleanup w_alice_expired)
   \<and> members (the (snd (logout ''tok'' (Some w_alice_expired)))) (''user:sessions:'' @ ''1'')
        = {|PStr ''tok''|}
   \<and> kv (the (snd (logout ''tok'' (Some w_alice_expired)))) (''session:'' @ ''tok'') = None
   \<and> kv w_alice_session (''session:'' @ ''nope'') = None
   \<and> snd (logout ''nope'' (Some w_alice_session)) = Some (cleanup w_alice_session)
   \<and> fst (logout ''tok'' (snd (logout ''tok'' (Some w_alice_session)))) = Inr True"
proof -
  have k: "kv w_alice_session (''session:'' @ ''tok'') = Some (PStr ''1'')"
    and t: "ttl w_alice_session (''session:'' @ ''tok'') = Some 604800"
    and c: "shd (clock w_alice_session) = 0"
    and m: "members w_alice_session (''user:sessions:'' @ ''1'') = {|PStr ''tok''|}"
    and n: "kv w_alice_session (''session:'' @ ''nope'') = None"
    by (simp_all add: w_alice_session_def w_alice_def w_empty_def members_def)
  have ke: "kv w_alice_expired (''session:'' @ ''tok'') = Some (PStr ''1'')"
    and te: "ttl w_alice_expired (''session:'' @ ''tok'') = Some 604800"
    and ce: "shd (clock w_alice_expired) = 700000"
    and se: "sets w_alice_expired = sets w_alice_session"
    by (simp_all add: w_alice_expired_def w_alice_session_def w_alice_def w_empty_def)
  have me: "members w_alice_expired (''user:sessions:'' @ ''1'') = {|PStr ''tok''|}"
    using m by (simp add: members_def se)
  have live: "\<forall>d. ttl w_alice_session (''session:'' @ ''tok'') = Some d \<longrightarrow> shd (clock w_alice_session) < d"
    using t c by simp
  have due: "604800 \<le> shd (clock w_alice_expired)"
    using ce by simp
  have u: "py_str (PStr ''1'') \<noteq> []" by simp
  note L = logout_never_fails [of "''tok''" w_alice_session]
  note E = logout_never_fails [of "''tok''" w_alice_expired]
  note N = logout_never_fails [of "''nope''" w_alice_session]
  have 1: "fst (logout ''tok'' (Some w_alice_session)) = Inr True"
    and 2: "fst (logout ''tok'' (snd (logout ''tok'' (Some w_alice_session)))) = Inr True"
    using L by blast+
  have 3: "kv (the (snd (logout ''tok'' (Some w_alice_session)))) (''session:'' @ ''tok'') = None"
    and 4: "members (the (snd (logout ''tok'' (Some w_alice_session)))) (''user:sessions:'' @ py_str (PStr ''1''))
            = members w_alice_session (''user:sessions:'' @ py_str (PStr ''1'')) |-| {|PStr ''tok''|}"
    using L k u live by blast+
  have 5: "fst (logout ''tok'' (Some w_alice_expired)) = Inr True"
    using E by blast
  have 6: "snd (logout ''tok'' (Some w_alice_expired)) = Some (cleanup w_alice_expired)"
    and 7: "sets (the (snd (logout ''tok'' (Some w_alice_expired)))) = sets w_alice_expired"
    and 8: "kv (the (snd (logout ''tok'' (Some w_alice_expired)))) (''session:'' @ ''tok'') = None"
    using E te due by blast+
  have 9: "snd (logout ''nope'' (Some w_alice_session)) = Some (cleanup w_alice_session)"
    using N n by blast
  have 10: "members (the (snd (logout ''tok'' (Some w_alice_expired)))) (''user:sessions:'' @ ''1'')
        = {|PStr ''tok''|}"
    using me 7 by (simp add: members_def)
  have 11: "members (the (snd (logout ''tok'' (Some w_alice_session)))) (''user:sessions:'' @ ''1'') = {||}"
    using 4 m by simp
  show ?thesis
    using k t c 1 2 3 5 6 8 9 10 11 m ke te due n by simp
qed

lemma login_Some:
  "login bv token sttl payload (Some w) =
     (case get_user_by_username (py_strip (login_username payload)) w of
        (None, w1) \<Rightarrow> (Inl (HTTPException 401 ''Invalid credentials''), Some w1)
      | (Some user, w1) \<Rightarrow>
          (case bv (login_password payload) (dict_get user ''password_hash'' []) of
             None \<Rightarrow> (Inl ValueError, Some w1)
           | Some False \<Rightarrow> (Inl (HTTPException 401 ''Invalid credentials''), Some w1)
           | Some True \<Rightarrow>
               (case map_of user ''id'' of
                  None \<Rightarrow> (Inl KeyError, Some w1)
                | Some uid \<Rightarrow>
                    (Inr token,
                     Some (snd (sadd (''user:sessions:'' @ uid) [PStr token]
                        (snd (setex (''session:'' @ token) sttl (PStr uid) w1))))))))"
  by (simp add: login_def with_redis_def split: prod.splits option.splits bool.splits)

lemma get_user_by_username_unbound:
  "fst (get (''user:byname:'' @ u) w) = None \<Longrightarrow> fst (get_user_by_username u w) = None"
  by (cases "get (''user:byname:'' @ u) w") (simp add: get_user_by_username_def)

lemma login_unknown_user:
  assumes "fst (get (''user:byname:'' @ py_strip (login_username p)) w) = None"
  shows "fst (login bv t sttl p (Some w)) = Inl (HTTPException 401 ''Invalid credentials'')"
  using get_user_by_username_unbound [OF assms]
  by (cases "get_user_by_username (py_strip (login_username p)) w") (simp add: login_Some)

lemma login_wrong_password:
  assumes "fst (get_user_by_username (py_strip (login_username p)) w) = Some user"
    and "bv (login_password p) (dict_get user ''password_hash'' []) = Some False"
  shows "fst (login bv t sttl p (Some w)) = Inl (HTTPException 401 ''Invalid credentials'')"
  using assms
  by (cases "get_user_by_username (py_strip (login_username p)) w") (simp add: login_Some)

lemma login_verify_raises:
  assumes "fst (get_user_by_username (py_strip (login_username p)) w) = Some user"
    and "bv (login_password p) (dict_get user ''password_hash'' []) = None"
  shows "fst (login bv t sttl p (Some w)) = Inl ValueError"
  using assms
  by (cases "get_user_by_username (py_strip (login_username p)) w") (simp add: login_Some)

lemma strip_names:
  "py_strip ''alice'' = ''alice''" "py_strip ''bob'' = ''bob''"
  by (simp_all add: py_strip_def is_space_def)

lemma w_alice_bcrypt_alice:
  "fst (get_user_by_username ''alice'' w_alice_bcrypt)
     = Some [(''id'', ''1''), (''username'', ''alice''), (''password_hash'', ''$2b$secret1''),
             (''created_at'', ''2026-01-01T00:00:00+00:00'')]"
  by (simp add: get_user_by_username_def store_defs w_alice_bcrypt_def w_empty_def show_int_1)

lemma w_alice_bcrypt_bob: "fst (get (''user:byname:'' @ ''bob'') w_alice_bcrypt) = None"
  by (simp add: store_defs w_alice_bcrypt_def w_empty_def)

lemma w_alice_alice:
  "fst (get_user_by_username ''alice'' w_alice)
     = Some [(''id'', ''1''), (''username'', ''alice''), (''password_hash'', ''H''),
             (''created_at'', ''2026-01-01T00:00:00+00:00'')]"
  by (simp add: get_user_by_username_def store_defs w_alice_def w_empty_def show_int_1)

text \<open>
  Claim C5. The two failures of \<open>login\<close> that the handler raises itself are the same
  \<open>HTTPException(401, "Invalid credentials")\<close>, but \<open>bcrypt.verify\<close> is called only once a user
  record has been found, and nothing catches what it raises. With one and the same
  password (it holds a NUL character), the login for the unbound name bob gets the 401,
  and the login for the registered name alice leaves the handler with the \<open>ValueError\<close> (a
  500): the two are told apart. A wrong password that \<open>bcrypt.verify\<close> answers with
  \<open>False\<close> gets the 401; a record whose stored hash it cannot identify raises as well.
\<close>

theorem login_verify_error_tells_users_apart:
  "fst (login verify_stub ''t'' 60 bob_nul_login (Some w_alice_bcrypt))
     = Inl (HTTPException 401 ''Invalid credentials'')
   \<and> fst (login verify_stub ''t'' 60 alice_nul_login (Some w_alice_bcrypt)) = Inl ValueError
   \<and> fst (login verify_stub ''t'' 60 alice_bad_login (Some w_alice_bcrypt))
     = Inl (HTTPException 401 ''Invalid credentials'')
   \<and> fst (login verify_stub ''t'' 60 alice_bad_login (Some w_alice)) = Inl ValueError"
proof -
  have 1: "fst (login verify_stub ''t'' 60 bob_nul_login (Some w_alice_bcrypt))
     = Inl (HTTPException 401 ''Invalid credentials'')"
    using w_alice_bcrypt_bob
    by (intro login_unknown_user) (simp add: bob_nul_login_def strip_names)
  have 2: "fst (login verify_stub ''t'' 60 alice_nul_login (Some w_alice_bcrypt)) = Inl ValueError"
    using w_alice_bcrypt_alice
    by (intro login_verify_raises [where user = "[(''id'', ''1''), (''username'', ''alice''),
             (''password_hash'', ''$2b$secret1''), (''created_at'', ''2026-01-01T00:00:00+00:00'')]"])
       (simp_all add: alice_nul_login_def strip_names verify_stub_def dict_get_def)
  have 3: "fst (login verify_stub ''t'' 60 alice_bad_login (Some w_alice_bcrypt))
     = Inl (HTTPException 401 ''Invalid credentials'')"
    using w_alice_bcrypt_alice
    by (intro login_wrong_password [where user = "[(''id'', ''1''), (''username'', ''alice''),
             (''password_hash'', ''$2b$secret1''), (''created_at'', ''2026-01-01T00:00:00+00:00'')]"])
       (simp_all add: alice_bad_login_def strip_names verify_stub_def dict_get_def)
  have 4: "fst (login verify_stub ''t'' 60 alice_bad_login (Some w_alice)) = Inl ValueError"
    using w_alice_alice
    by (intro login_verify_raises [where user = "[(''id'', ''1''), (''username'', ''alice''),
             (''password_hash'', ''H''), (''created_at'', ''2026-01-01T00:00:00+00:00'')]"])
       (simp_all add: alice_bad_login_def strip_names verify_stub_def dict_get_def)
  show ?thesis using 1 2 3 4 by blast
qed


















end
